theory Spec2Isabelle
  imports
    Main
    "HOL-Library.Char_ord"
    "HOL-Library.List_Lexorder"
    "HOL-Library.Sublist"
    "HOL-Library.AList"
begin

section \<open>Python values used by the player\<close>

text \<open>
  The program is a single Python file, \<^verbatim>\<open>reproductor.py\<close>. Strings are modelled as
  lists of 8-bit characters compared by code, as Python compares \<^verbatim>\<open>str\<close> values on
  their code points; integers are unbounded, so they are \<^typ>\<open>int\<close>.
\<close>

subsection \<open>Decimal formatting: \<^verbatim>\<open>f"{n:02d}"\<close>\<close>

definition digit_char :: "nat \<Rightarrow> char" where
  "digit_char d = char_of (48 + d)"

function dec_nat :: "nat \<Rightarrow> string" where
  "dec_nat n = (if n < 10 then [digit_char n] else dec_nat (n div 10) @ [digit_char (n mod 10)])"
  by pat_completeness auto
termination
  by (relation "measure (\<lambda>n. n)") auto

declare dec_nat.simps [simp del]

text \<open>
  The format specification \<^verbatim>\<open>02d\<close> pads with zeros to a minimum width of two, the sign
  counting towards the width; longer numbers are printed in full.
\<close>

definition fmt_02d :: "int \<Rightarrow> string" where
  "fmt_02d i =
     (if i < 0 then CHR ''-'' # dec_nat (nat (- i))
      else (let ds = dec_nat (nat i) in if length ds < 2 then CHR ''0'' # ds else ds))"

text \<open>Reading a decimal numeral back, to state what a printed number denotes.\<close>

definition is_digit :: "char \<Rightarrow> bool" where
  "is_digit c = (48 \<le> (of_char c :: nat) \<and> (of_char c :: nat) \<le> 57)"

definition read_dec :: "string \<Rightarrow> nat" where
  "read_dec s = foldl (\<lambda>acc c. 10 * acc + (of_char c - 48)) 0 s"

subsection \<open>\<^verbatim>\<open>MusicMinimalPlayer.format_time\<close>\<close>

definition format_time :: "int \<Rightarrow> string" where
  "format_time milliseconds =
     (let total_seconds = milliseconds div 1000;
          minutes = total_seconds div 60;
          seconds = total_seconds mod 60
      in fmt_02d minutes @ '':'' @ fmt_02d seconds)"


section \<open>Paths and file names\<close>

text \<open>
  Paths follow \<^verbatim>\<open>posixpath\<close>: \<^verbatim>\<open>os.path.join(a, b)\<close> restarts at an absolute \<open>b\<close> and
  inserts one separator otherwise; \<^verbatim>\<open>os.path.basename\<close> is what follows the last
  separator. \<^verbatim>\<open>str.lower\<close> is modelled on ASCII letters; other characters are kept.
\<close>

definition path_join :: "string \<Rightarrow> string \<Rightarrow> string" where
  "path_join a b =
     (if b \<noteq> [] \<and> hd b = CHR ''/'' then b
      else if a = [] \<or> last a = CHR ''/'' then a @ b
      else a @ ''/'' @ b)"

definition basename :: "string \<Rightarrow> string" where
  "basename p = rev (takeWhile (\<lambda>c. c \<noteq> CHR ''/'') (rev p))"

definition lower_char :: "char \<Rightarrow> char" where
  "lower_char c =
     (if CHR ''A'' \<le> c \<and> c \<le> CHR ''Z'' then char_of ((of_char c :: nat) + 32) else c)"

definition lower :: "string \<Rightarrow> string" where
  "lower s = map lower_char s"

definition audio_exts :: "string list" where
  "audio_exts = [''.mp3'', ''.wav'', ''.flac'', ''.aac'', ''.m4a'', ''.ogg'']"

definition is_audio :: "string \<Rightarrow> bool" where
  "is_audio f = list_ex (\<lambda>ext. suffix ext (lower f)) audio_exts"

section \<open>The file system under the music root\<close>

text \<open>
  A directory lists its entries in an order of the operating system's choosing, which is
  the order of the list here. \<^verbatim>\<open>os.path.isdir\<close> needs no read permission on the
  directory it tests, \<^verbatim>\<open>os.listdir\<close> does: an unreadable directory is a \<open>Dir\<close> whose
  flag is \<open>False\<close>. The tree is one snapshot: it does not change during a scan.
\<close>

datatype py_error = PermissionError | NotADirectoryError | FileNotFoundError
  | KeyError | AttributeError | TypeError

datatype fs_node = File | Dir bool "(string \<times> fs_node) list"

fun isdir :: "fs_node option \<Rightarrow> bool" where
  "isdir (Some (Dir readable entries)) = True"
| "isdir _ = False"

fun listdir :: "fs_node option \<Rightarrow> py_error + string list" where
  "listdir None = Inl FileNotFoundError"
| "listdir (Some File) = Inl NotADirectoryError"
| "listdir (Some (Dir readable entries)) =
     (if readable then Inr (map fst entries) else Inl PermissionError)"

fun child :: "fs_node option \<Rightarrow> string \<Rightarrow> fs_node option" where
  "child (Some (Dir readable entries)) name = map_of entries name"
| "child _ name = None"

section \<open>\<^verbatim>\<open>scan_playlists\<close>\<close>

text \<open>
  The catalog is a Python \<^verbatim>\<open>dict\<close>, which keeps its keys in insertion order and leaves
  a key where it is when its value is replaced: an association list under
  \<^const>\<open>AList.update\<close>. \<^verbatim>\<open>sorted\<close> is a stable sort, \<^const>\<open>sort_key\<close>.
\<close>

type_synonym catalog = "(string \<times> string list) list"

definition audio_files :: "string \<Rightarrow> string list \<Rightarrow> string list" where
  "audio_files dir_path names = map (path_join dir_path) (filter is_audio names)"

definition register :: "string \<Rightarrow> string list \<Rightarrow> catalog \<Rightarrow> catalog" where
  "register key files playlists =
     (if files \<noteq> [] then AList.update key (sort_key lower files) playlists else playlists)"

text \<open>The first loop: the immediate subdirectories of the root.\<close>

fun scan_top :: "string \<Rightarrow> fs_node option \<Rightarrow> string list \<Rightarrow> catalog \<Rightarrow> py_error + catalog" where
  "scan_top root_path root [] playlists = Inr playlists"
| "scan_top root_path root (entry # rest) playlists =
     (if isdir (child root entry) then
        (case listdir (child root entry) of
           Inl e \<Rightarrow> Inl e
         | Inr names \<Rightarrow>
             scan_top root_path root rest
               (register entry (audio_files (path_join root_path entry) names) playlists))
      else scan_top root_path root rest playlists)"

text \<open>The second loop: one level below each immediate subdirectory.\<close>

fun scan_sub :: "string \<Rightarrow> string \<Rightarrow> fs_node option \<Rightarrow> string list \<Rightarrow> catalog \<Rightarrow> py_error + catalog" where
  "scan_sub entry entry_path node [] playlists = Inr playlists"
| "scan_sub entry entry_path node (sub_entry # rest) playlists =
     (if isdir (child node sub_entry) then
        (case listdir (child node sub_entry) of
           Inl e \<Rightarrow> Inl e
         | Inr names \<Rightarrow>
             scan_sub entry entry_path node rest
               (register (entry @ ''/'' @ sub_entry)
                  (audio_files (path_join entry_path sub_entry) names) playlists))
      else scan_sub entry entry_path node rest playlists)"

fun scan_nested :: "string \<Rightarrow> fs_node option \<Rightarrow> string list \<Rightarrow> catalog \<Rightarrow> py_error + catalog" where
  "scan_nested root_path root [] playlists = Inr playlists"
| "scan_nested root_path root (entry # rest) playlists =
     (if isdir (child root entry) then
        (case listdir (child root entry) of
           Inl e \<Rightarrow> Inl e
         | Inr subs \<Rightarrow>
             (case scan_sub entry (path_join root_path entry) (child root entry) (sort subs) playlists of
                Inl e \<Rightarrow> Inl e
              | Inr playlists' \<Rightarrow> scan_nested root_path root rest playlists'))
      else scan_nested root_path root rest playlists)"

definition scan_playlists :: "string \<Rightarrow> fs_node option \<Rightarrow> py_error + catalog" where
  "scan_playlists root_path root =
     (if \<not> isdir root then Inr []
      else
        (case listdir root of
           Inl e \<Rightarrow> Inl e
         | Inr names \<Rightarrow>
             (case scan_top root_path root (sort names) [] of
                Inl e \<Rightarrow> Inl e
              | Inr playlists \<Rightarrow>
                  (case listdir root of
                     Inl e \<Rightarrow> Inl e
                   | Inr names' \<Rightarrow> scan_nested root_path root (sort names') playlists))))"

text \<open>The keys of a catalog that name a top-level folder: those without a separator.\<close>

definition top_level_names :: "catalog \<Rightarrow> string list" where
  "top_level_names playlists = filter (\<lambda>k. CHR ''/'' \<notin> set k) (map fst playlists)"

section \<open>The session configuration\<close>

text \<open>
  \<^verbatim>\<open>config\<close> is a \<^verbatim>\<open>dict\<close> from key names to JSON values. The persisted record holds
  integers, booleans and strings; other JSON values are outside this model. The file
  \<^verbatim>\<open>config.json\<close> is \<open>None\<close> when it is missing or does not parse.
\<close>

datatype jval = JInt int | JBool bool | JStr string

type_synonym config_dict = "string \<rightharpoonup> jval"

definition default_config :: config_dict where
  "default_config =
     [''volume'' \<mapsto> JInt 80, ''shuffle'' \<mapsto> JBool True, ''pinned'' \<mapsto> JBool True,
      ''x'' \<mapsto> JInt 100, ''y'' \<mapsto> JInt 100, ''width'' \<mapsto> JInt 600, ''height'' \<mapsto> JInt 40,
      ''bg_color'' \<mapsto> JStr ''#000000'', ''btn_color'' \<mapsto> JStr ''#333333'',
      ''font_color'' \<mapsto> JStr ''#FFFFFF'', ''playlist'' \<mapsto> JStr [],
      ''song_index'' \<mapsto> JInt 0, ''show_titlebar'' \<mapsto> JBool True,
      ''opacity'' \<mapsto> JInt 100, ''resizable'' \<mapsto> JBool True]"

definition load_config :: "config_dict option \<Rightarrow> config_dict" where
  "load_config file = (case file of None \<Rightarrow> default_config | Some doc \<Rightarrow> default_config ++ doc)"

text \<open>\<^verbatim>\<open>dict.get(key, default)\<close> and the truth value Python gives a JSON value.\<close>

definition dict_get :: "config_dict \<Rightarrow> string \<Rightarrow> jval \<Rightarrow> jval" where
  "dict_get d k dflt = (case d k of None \<Rightarrow> dflt | Some v \<Rightarrow> v)"

fun truthy :: "jval \<Rightarrow> bool" where
  "truthy (JInt i) = (i \<noteq> 0)"
| "truthy (JBool b) = b"
| "truthy (JStr s) = (s \<noteq> [])"

section \<open>The player and its collaborators\<close>

text \<open>
  The media engine and the disk are outside the program. What they answer during one
  operation is the operation's environment:
  \<^item> \<open>engine\<close>: what becomes of the \<^verbatim>\<open>try\<close> block of \<^verbatim>\<open>play_song_at_index\<close> for a
    file: an exception while the media is created, parsed and its title read, an
    exception once the media is handed to the player, or success; the title is the
    metadata title the engine reports, if any;
  \<^item> \<open>write_error\<close>: the exception \<^verbatim>\<open>save_config\<close> meets when it opens the file, if any;
  \<^item> \<open>random_pick\<close>: the source of \<^verbatim>\<open>random.randrange(n)\<close>, which returns
    \<open>random_pick mod n\<close>; every value below \<open>n\<close> arises from some pick.
\<close>

datatype engine_reply =
    Fails_load string
  | Fails_play "string option" string
  | Plays "string option"

record env =
  engine :: "string \<Rightarrow> engine_reply"
  write_error :: "string option"
  random_pick :: nat

datatype engine_cmd = MediaNew string | SetMedia string | Play | SetVolume jval

text \<open>
  \<^verbatim>\<open>self.current_playlist_name\<close> is assigned in \<^verbatim>\<open>__init__\<close> only when a playlist
  exists: the attribute may be missing (\<open>Unset\<close>), and \<^verbatim>\<open>refresh_playlists\<close> may set
  it to \<^verbatim>\<open>None\<close>.
\<close>

datatype name_attr = Unset | PyNone | Name string

datatype glyph = Play_glyph | Pause_glyph

text \<open>
  The fields of \<^verbatim>\<open>MusicMinimalPlayer\<close> that the transport operations read or write.
  \<open>config_file\<close> is the content of \<^verbatim>\<open>config.json\<close>, \<open>engine_log\<close> the commands sent
  to the engine so far, \<open>console\<close> the lines printed so far; \<open>song_label\<close> and
  \<open>play_btn\<close> are the texts of the two widgets the operations update. The rest of
  the window is not modelled.
\<close>

record player =
  config :: config_dict
  config_file :: "config_dict option"
  playlists :: catalog
  playlist_names :: "string list"
  current_playlist_name :: name_attr
  current_playlist_files :: "string list"
  current_index :: int
  has_player :: bool
  song_label :: string
  play_btn :: glyph
  engine_log :: "engine_cmd list"
  console :: "string list"

definition save_config :: "env \<Rightarrow> player \<Rightarrow> player" where
  "save_config ev s =
     (case write_error ev of
        None \<Rightarrow> s\<lparr>config_file := Some (config s)\<rparr>
      | Some e \<Rightarrow> s\<lparr>console := console s @ [''Failed to save config: '' @ e]\<rparr>)"

text \<open>\<^verbatim>\<open>self.playlists.get(self.current_playlist_name, [])\<close>\<close>

fun playlists_get :: "catalog \<Rightarrow> name_attr \<Rightarrow> py_error + string list" where
  "playlists_get pls Unset = Inl AttributeError"
| "playlists_get pls PyNone = Inr []"
| "playlists_get pls (Name n) = Inr (case map_of pls n of None \<Rightarrow> [] | Some files \<Rightarrow> files)"

subsection \<open>\<^verbatim>\<open>play_song_at_index\<close>\<close>

definition show_playing :: "string \<Rightarrow> player \<Rightarrow> player" where
  "show_playing title s = s\<lparr>song_label := title, play_btn := Pause_glyph\<rparr>"

definition error_playing :: "string \<Rightarrow> string \<Rightarrow> string" where
  "error_playing file_path e = ''Error playing '' @ file_path @ '': '' @ e"

fun pick_title :: "string \<Rightarrow> string option \<Rightarrow> string" where
  "pick_title title None = title"
| "pick_title title (Some t) = (if t \<noteq> [] then t else title)"

text \<open>
  The \<^verbatim>\<open>try\<close> block. The commands logged are those reached before the exception; a
  missing \<^verbatim>\<open>volume\<close> key raises inside the block and is caught with the rest.
\<close>

definition engine_play :: "env \<Rightarrow> string \<Rightarrow> string \<Rightarrow> player \<Rightarrow> player" where
  "engine_play ev file_path title s =
     (case engine ev file_path of
        Fails_load e \<Rightarrow>
          s\<lparr>engine_log := engine_log s @ [MediaNew file_path],
            console := console s @ [error_playing file_path e]\<rparr>
      | Fails_play t e \<Rightarrow>
          s\<lparr>engine_log := engine_log s @ [MediaNew file_path, SetMedia file_path, Play],
            console := console s @ [error_playing file_path e]\<rparr>
      | Plays t \<Rightarrow>
          (case config s ''volume'' of
             None \<Rightarrow>
               s\<lparr>engine_log := engine_log s @ [MediaNew file_path, SetMedia file_path, Play],
                 console := console s @ [error_playing file_path ''KeyError'']\<rparr>
           | Some v \<Rightarrow>
               show_playing (pick_title title t)
                 (s\<lparr>engine_log := engine_log s @
                      [MediaNew file_path, SetMedia file_path, Play, SetVolume v]\<rparr>)))"

definition play_song_at_index :: "env \<Rightarrow> int \<Rightarrow> player \<Rightarrow> player" where
  "play_song_at_index ev idx s =
     (if current_playlist_files s = [] then s
      else if idx < 0 \<or> idx \<ge> int (length (current_playlist_files s)) then s
      else
        (let s1 = s\<lparr>current_index := idx\<rparr>;
             file_path = current_playlist_files s1 ! nat (current_index s1);
             s2 = save_config ev
                    (s1\<lparr>config := (config s1)(''song_index'' \<mapsto> JInt (current_index s1))\<rparr>);
             title = basename file_path
         in if has_player s2 then engine_play ev file_path title s2
            else show_playing title s2))"

subsection \<open>Choosing a playlist\<close>

definition load_current_playlist :: "env \<Rightarrow> player \<Rightarrow> py_error + player" where
  "load_current_playlist ev s =
     (case playlists_get (playlists s) (current_playlist_name s) of
        Inl e \<Rightarrow> Inl e
      | Inr files \<Rightarrow>
          (let s1 = s\<lparr>current_playlist_files := files\<rparr>
           in if current_playlist_files s1 = []
              then Inr (s1\<lparr>song_label := ''No files in playlist''\<rparr>)
              else Inr (play_song_at_index ev (current_index s1) s1)))"

definition on_playlist_change :: "env \<Rightarrow> string \<Rightarrow> player \<Rightarrow> py_error + player" where
  "on_playlist_change ev playlist_name s =
     (let s1 = s\<lparr>current_playlist_name := Name playlist_name\<rparr>;
          s2 = save_config ev (s1\<lparr>config := (config s1)(''playlist'' \<mapsto> JStr playlist_name)\<rparr>);
          s3 = s2\<lparr>current_index := 0\<rparr>
      in load_current_playlist ev s3)"

subsection \<open>The two toggle handlers\<close>

definition on_shuffle_toggle :: "env \<Rightarrow> player \<Rightarrow> player" where
  "on_shuffle_toggle ev s =
     save_config ev
       (s\<lparr>config := (config s)(''shuffle'' \<mapsto> dict_get (config s) ''shuffle'' (JBool True))\<rparr>)"

text \<open>The window calls of \<^verbatim>\<open>toggle_pin\<close> (\<^verbatim>\<open>-topmost\<close>, \<^verbatim>\<open>lift\<close>) are not modelled.\<close>

definition toggle_pin :: "env \<Rightarrow> player \<Rightarrow> player" where
  "toggle_pin ev s =
     save_config ev
       (s\<lparr>config := (config s)(''pinned'' \<mapsto> dict_get (config s) ''pinned'' (JBool True))\<rparr>)"

subsection \<open>\<^verbatim>\<open>next_song\<close> and \<^verbatim>\<open>prev_song\<close>\<close>

definition randrange :: "env \<Rightarrow> nat \<Rightarrow> int" where
  "randrange ev n = int (random_pick ev mod n)"

text \<open>
  Python's \<^verbatim>\<open>%\<close> with a positive modulus is never negative, as \<open>mod\<close> on \<^typ>\<open>int\<close>.
  \<^verbatim>\<open>self.config["shuffle"]\<close> raises \<^verbatim>\<open>KeyError\<close> on a missing key.
\<close>

definition next_song :: "env \<Rightarrow> player \<Rightarrow> py_error + player" where
  "next_song ev s =
     (if current_playlist_files s = [] then Inr s
      else
        (case config s ''shuffle'' of
           None \<Rightarrow> Inl KeyError
         | Some sh \<Rightarrow>
             (let s1 = (if truthy sh
                        then s\<lparr>current_index := randrange ev (length (current_playlist_files s))\<rparr>
                        else s\<lparr>current_index :=
                               (current_index s + 1) mod int (length (current_playlist_files s))\<rparr>)
              in Inr (play_song_at_index ev (current_index s1) s1))))"

definition prev_song :: "env \<Rightarrow> player \<Rightarrow> py_error + player" where
  "prev_song ev s =
     (if current_playlist_files s = [] then Inr s
      else
        (case config s ''shuffle'' of
           None \<Rightarrow> Inl KeyError
         | Some sh \<Rightarrow>
             (let s1 = (if truthy sh
                        then s\<lparr>current_index := randrange ev (length (current_playlist_files s))\<rparr>
                        else s\<lparr>current_index :=
                               (current_index s - 1) mod int (length (current_playlist_files s))\<rparr>)
              in Inr (play_song_at_index ev (current_index s1) s1))))"

subsection \<open>\<^verbatim>\<open>MusicMinimalPlayer.__init__\<close>\<close>

text \<open>
  \<^verbatim>\<open>saved_playlist in self.playlist_names\<close> holds for a string that is one of the names.
  \<^verbatim>\<open>self.current_index >= len(...)\<close> compares a number; a Python \<^verbatim>\<open>bool\<close> is an
  \<^verbatim>\<open>int\<close> (0 or 1) and a string raises \<^verbatim>\<open>TypeError\<close>. The index is kept as the integer
  it denotes.
\<close>

fun saved_name :: "jval \<Rightarrow> string list \<Rightarrow> string option" where
  "saved_name (JStr n) names = (if n \<in> set names then Some n else None)"
| "saved_name _ names = None"

fun index_of_jval :: "jval \<Rightarrow> py_error + int" where
  "index_of_jval (JInt i) = Inr i"
| "index_of_jval (JBool b) = Inr (if b then 1 else 0)"
| "index_of_jval (JStr s) = Inl TypeError"

definition first_playlist :: "config_dict \<Rightarrow> catalog \<Rightarrow> string list \<Rightarrow> name_attr \<times> string list" where
  "first_playlist cfg pls names =
     (case names of
        [] \<Rightarrow> (Unset, [])
      | n0 # _ \<Rightarrow>
          (let n = (case saved_name (dict_get cfg ''playlist'' (JStr [])) names of
                      Some saved \<Rightarrow> saved | None \<Rightarrow> n0)
           in (Name n, (case map_of pls n of None \<Rightarrow> [] | Some files \<Rightarrow> files))))"

definition init :: "env \<Rightarrow> config_dict option \<Rightarrow> string \<Rightarrow> fs_node option \<Rightarrow> bool \<Rightarrow> py_error + player" where
  "init ev file music_root root vlc_present =
     (let cfg = load_config file in
      case scan_playlists music_root root of
        Inl e \<Rightarrow> Inl e
      | Inr pls \<Rightarrow>
          (let names = sort (map fst pls);
               (name, files) = first_playlist cfg pls names
           in case index_of_jval (dict_get cfg ''song_index'' (JInt 0)) of
                Inl e \<Rightarrow> Inl e
              | Inr saved_index \<Rightarrow>
                  load_current_playlist ev
                    \<lparr>config = cfg, config_file = file, playlists = pls, playlist_names = names,
                     current_playlist_name = name, current_playlist_files = files,
                     current_index = (if saved_index \<ge> int (length files) then 0 else saved_index),
                     has_player = vlc_present, song_label = ''No song playing'',
                     play_btn = Play_glyph, engine_log = [], console = []\<rparr>))"

subsection \<open>The end-of-track watcher\<close>

text \<open>
  One iteration of the loop of \<^verbatim>\<open>monitor_player\<close>. The engine is asked
  \<^verbatim>\<open>is_playing()\<close> before the half-second sleep and, if it was not playing, again after
  it; \<^verbatim>\<open>check_song_ended\<close> then asks \<^verbatim>\<open>get_state()\<close>. Each call may raise. The
  iteration yields whether a thread running \<^verbatim>\<open>next_song\<close> is started, and what it
  prints. The thread itself runs beside the watcher and is not part of the iteration.
\<close>

datatype vlc_state = NothingSpecial | Opening | Buffering | Playing | Paused
  | Stopped | Ended | Error

datatype 'a outcome = Returns 'a | Raises string

record engine_obs =
  is_playing_before :: "bool outcome"
  is_playing_after :: "bool outcome"
  get_state :: "vlc_state outcome"

definition check_song_ended :: "player \<Rightarrow> engine_obs \<Rightarrow> bool \<times> string list" where
  "check_song_ended s obs =
     (if has_player s \<and> current_playlist_files s \<noteq> [] then
        (case get_state obs of
           Raises e \<Rightarrow> (False, [''Error checking song end: '' @ e])
         | Returns st \<Rightarrow> (st = Ended \<or> st = NothingSpecial, []))
      else (False, []))"

definition monitor_tick :: "player \<Rightarrow> engine_obs \<Rightarrow> bool \<times> string list" where
  "monitor_tick s obs =
     (if \<not> has_player s then (False, [])
      else
        (case is_playing_before obs of
           Raises e \<Rightarrow> (False, [''Monitor error: '' @ e])
         | Returns True \<Rightarrow> (False, [])
         | Returns False \<Rightarrow>
             (case is_playing_after obs of
                Raises e \<Rightarrow> (False, [''Monitor error: '' @ e])
              | Returns playing \<Rightarrow>
                  (if \<not> playing \<and> current_playlist_files s \<noteq> [] then check_song_ended s obs
                   else (False, [])))))"

text \<open>The number of \<^verbatim>\<open>next_song\<close> threads started over a run of iterations.\<close>

definition advances :: "player \<Rightarrow> engine_obs list \<Rightarrow> nat" where
  "advances s run = length (filter (\<lambda>obs. fst (monitor_tick s obs)) run)"

section \<open>States the player can reach\<close>

text \<open>
  Start-up, then any sequence of playlist selections, \<^verbatim>\<open>next\<close>, \<^verbatim>\<open>prev\<close> and
  \<^verbatim>\<open>play_song_at_index\<close>, each in an environment of its own.
\<close>

inductive reachable :: "player \<Rightarrow> bool" where
  start: "init ev file music_root root vlc_present = Inr s \<Longrightarrow> reachable s"
| select: "reachable s \<Longrightarrow> on_playlist_change ev name s = Inr s' \<Longrightarrow> reachable s'"
| nxt: "reachable s \<Longrightarrow> next_song ev s = Inr s' \<Longrightarrow> reachable s'"
| prv: "reachable s \<Longrightarrow> prev_song ev s = Inr s' \<Longrightarrow> reachable s'"
| play_at: "reachable s \<Longrightarrow> reachable (play_song_at_index ev idx s)"

definition index_valid :: "player \<Rightarrow> bool" where
  "index_valid s =
     (current_playlist_files s = [] \<or>
      (0 \<le> current_index s \<and> current_index s < int (length (current_playlist_files s))))"


section \<open>A small session, to run the operations on\<close>

text \<open>
  One playlist of three tracks, the first one current, shuffle off; an engine that plays
  every file and one that cannot load any.
\<close>

definition demo_files :: "string list" where
  "demo_files = [''/m/rock/a.mp3'', ''/m/rock/b.mp3'', ''/m/rock/c.mp3'']"

definition demo_config :: config_dict where
  "demo_config = [''volume'' \<mapsto> JInt 80, ''shuffle'' \<mapsto> JBool False, ''pinned'' \<mapsto> JBool True,
     ''playlist'' \<mapsto> JStr ''rock'', ''song_index'' \<mapsto> JInt 0]"

definition demo_player :: player where
  "demo_player =
     \<lparr>config = demo_config, config_file = Some demo_config,
      playlists = [(''rock'', demo_files)], playlist_names = [''rock''],
      current_playlist_name = Name ''rock'', current_playlist_files = demo_files,
      current_index = 0, has_player = True, song_label = ''a.mp3'',
      play_btn = Pause_glyph, engine_log = [], console = []\<rparr>"

definition working_env :: env where
  "working_env = \<lparr>engine = (\<lambda>p. Plays None), write_error = None, random_pick = 0\<rparr>"

definition failing_env :: env where
  "failing_env = \<lparr>engine = (\<lambda>p. Fails_load ''cannot open''), write_error = None, random_pick = 0\<rparr>"


definition demo_root :: "fs_node option" where
  "demo_root =
     Some (Dir True
       [(''rock'', Dir True [(''c.mp3'', File), (''a.mp3'', File), (''notes.txt'', File),
          (''b.mp3'', File)])])"


text \<open>
  Two top-level folders whose names differ in case, an unreadable root, and a root with
  a nested folder and unsorted listings.
\<close>

definition mixed_case_root :: "fs_node option" where
  "mixed_case_root =
     Some (Dir True
       [(''a'', Dir True [(''y.mp3'', File)]),
        (''B'', Dir True [(''x.mp3'', File)])])"

definition unreadable_root :: "fs_node option" where
  "unreadable_root = Some (Dir False [(''rock'', Dir True [(''a.mp3'', File)])])"

definition nested_root :: "fs_node option" where
  "nested_root =
     Some (Dir True
       [(''pop'', Dir True [(''b.MP3'', File), (''A.ogg'', File),
          (''live'', Dir True [(''z.flac'', File), (''deep'', Dir True [(''q.mp3'', File)])])]),
        (''cover.jpg'', File),
        (''Jazz'', Dir True [(''readme.txt'', File)])])"


section \<open>Properties of the time format\<close>

lemma digit_char_0: "digit_char 0 = CHR ''0''"
  by code_simp

lemma of_char_digit_char: "d < 10 \<Longrightarrow> (of_char (digit_char d) :: nat) = 48 + d"
  by (simp add: digit_char_def)

lemma is_digit_digit_char: "d < 10 \<Longrightarrow> is_digit (digit_char d)"
  by (simp add: is_digit_def of_char_digit_char)

lemma read_dec_snoc: "read_dec (s @ [c]) = 10 * read_dec s + (of_char c - 48)"
  by (simp add: read_dec_def)

lemma read_dec_dec_nat: "read_dec (dec_nat n) = n"
proof (induction n rule: dec_nat.induct)
  case (1 n)
  show ?case
  proof (cases "n < 10")
    case True
    then show ?thesis
      by (subst dec_nat.simps) (simp add: read_dec_def of_char_digit_char)
  next
    case False
    with 1 have "read_dec (dec_nat (n div 10)) = n div 10" by simp
    with False show ?thesis
      by (subst dec_nat.simps) (simp add: read_dec_snoc of_char_digit_char)
  qed
qed

lemma digits_dec_nat: "c \<in> set (dec_nat n) \<Longrightarrow> is_digit c"
proof (induction n rule: dec_nat.induct)
  case (1 n)
  show ?case
  proof (cases "n < 10")
    case True
    with 1(2) show ?thesis
      by (subst (asm) dec_nat.simps) (simp add: is_digit_digit_char)
  next
    case False
    with 1 show ?thesis
      by (subst (asm) (2) dec_nat.simps) (auto simp: is_digit_digit_char)
  qed
qed

lemma dec_nat_nonempty: "dec_nat n \<noteq> []"
  by (subst dec_nat.simps) simp

lemma dec_nat_two_digits:
  assumes "10 \<le> n" "n < 100"
  shows "dec_nat n = [digit_char (n div 10), digit_char (n mod 10)]"
proof -
  from assms have "n div 10 < 10" by simp
  then have "dec_nat (n div 10) = [digit_char (n div 10)]"
    by (subst dec_nat.simps) simp
  with assms show ?thesis
    by (subst dec_nat.simps) simp
qed

lemma fmt_02d_below_100:
  assumes "0 \<le> i" "i < 100"
  shows "fmt_02d i = [digit_char (nat i div 10), digit_char (nat i mod 10)]"
proof (cases "i < 10")
  case True
  with assms have "dec_nat (nat i) = [digit_char (nat i)]"
    by (subst dec_nat.simps) simp
  with assms True show ?thesis
    by (simp add: fmt_02d_def digit_char_0)
next
  case False
  with assms have "dec_nat (nat i) = [digit_char (nat i div 10), digit_char (nat i mod 10)]"
    by (intro dec_nat_two_digits) simp_all
  with assms show ?thesis
    by (simp add: fmt_02d_def)
qed

lemma read_dec_fmt_02d: "0 \<le> i \<Longrightarrow> read_dec (fmt_02d i) = nat i"
proof -
  assume "0 \<le> i"
  have "read_dec (CHR ''0'' # ds) = read_dec ds" for ds
    by (simp add: read_dec_def)
  with \<open>0 \<le> i\<close> show ?thesis
    by (simp add: fmt_02d_def Let_def read_dec_dec_nat)
qed

lemma length_fmt_02d: "0 \<le> i \<Longrightarrow> 2 \<le> length (fmt_02d i)"
proof -
  assume "0 \<le> i"
  have "0 < length (dec_nat (nat i))"
    using dec_nat_nonempty [of "nat i"] by simp
  with \<open>0 \<le> i\<close> show ?thesis
    by (auto simp: fmt_02d_def Let_def Suc_le_eq)
qed

lemma digits_fmt_02d: "0 \<le> i \<Longrightarrow> c \<in> set (fmt_02d i) \<Longrightarrow> is_digit c"
  by (auto simp: fmt_02d_def Let_def is_digit_def dest: digits_dec_nat split: if_splits)

text \<open>
  Claim C9. For every non-negative number of milliseconds, \<open>format_time\<close> returns
  \<open>MM:SS\<close>: the minutes, \<open>(ms div 1000) div 60\<close>, printed in full on at least two
  digits whatever their size, a colon, and the seconds, \<open>(ms div 1000) mod 60\<close>, on
  exactly two digits. In particular 125000 gives \<open>02:05\<close>, 59000 gives \<open>00:59\<close> and
  3661000 gives \<open>61:01\<close>.
\<close>

theorem format_time_mm_ss:
  "0 \<le> ms \<Longrightarrow>
     (\<exists>mm d1 d0.
        format_time ms = mm @ '':'' @ [d1, d0] \<and>
        2 \<le> length mm \<and> list_all is_digit mm \<and>
        read_dec mm = nat ((ms div 1000) div 60) \<and>
        is_digit d1 \<and> is_digit d0 \<and>
        read_dec [d1, d0] = nat ((ms div 1000) mod 60)) \<and>
     format_time 125000 = ''02:05'' \<and>
     format_time 59000 = ''00:59'' \<and>
     format_time 3661000 = ''61:01''"
proof -
  assume nonneg: "0 \<le> ms"
  define m where "m = (ms div 1000) div 60"
  define sec where "sec = (ms div 1000) mod 60"
  from nonneg have m0: "0 \<le> m"
    by (simp add: m_def pos_imp_zdiv_nonneg_iff)
  have sec_range: "0 \<le> sec" "sec < 60"
    by (simp_all add: sec_def)
  then have sec_fmt: "fmt_02d sec = [digit_char (nat sec div 10), digit_char (nat sec mod 10)]"
    by (intro fmt_02d_below_100) simp_all
  from sec_range have d1: "nat sec div 10 < 10"
    by simp
  have d0: "nat sec mod 10 < 10"
    by simp
  have shape: "format_time ms = fmt_02d m @ '':'' @ [digit_char (nat sec div 10), digit_char (nat sec mod 10)]"
    by (simp add: format_time_def Let_def m_def [symmetric] sec_def [symmetric] sec_fmt)
  have secval: "read_dec [digit_char (nat sec div 10), digit_char (nat sec mod 10)] = nat sec"
    using d1 d0 by (simp add: read_dec_def of_char_digit_char)
  have digits: "list_all is_digit (fmt_02d m)"
    using m0 by (auto simp: list_all_iff dest: digits_fmt_02d)
  have general: "\<exists>mm d1 d0.
        format_time ms = mm @ '':'' @ [d1, d0] \<and>
        2 \<le> length mm \<and> list_all is_digit mm \<and>
        read_dec mm = nat m \<and> is_digit d1 \<and> is_digit d0 \<and> read_dec [d1, d0] = nat sec"
    using shape secval digits m0 d1 d0 length_fmt_02d [of m] read_dec_fmt_02d [of m]
      is_digit_digit_char
    by blast
  have e1: "format_time 125000 = ''02:05''"
    by code_simp
  have e2: "format_time 59000 = ''00:59''"
    by code_simp
  have e3: "format_time 3661000 = ''61:01''"
    by code_simp
  from general e1 e2 e3 show ?thesis
    unfolding m_def sec_def by blast
qed

theorem format_time_mm_ss_witness:
  "(0::int) \<le> 3661000 \<and>
     (\<exists>mm d1 d0.
        format_time 3661000 = mm @ '':'' @ [d1, d0] \<and>
        2 \<le> length mm \<and> list_all is_digit mm \<and>
        read_dec mm = nat ((3661000 div 1000) div 60) \<and>
        is_digit d1 \<and> is_digit d0 \<and>
        read_dec [d1, d0] = nat ((3661000 div 1000) mod 60))"
proof
  show "(0::int) \<le> 3661000"
    by simp
  then show "\<exists>mm d1 d0.
        format_time 3661000 = mm @ '':'' @ [d1, d0] \<and>
        2 \<le> length mm \<and> list_all is_digit mm \<and>
        read_dec mm = nat ((3661000 div 1000) div 60) \<and>
        is_digit d1 \<and> is_digit d0 \<and>
        read_dec [d1, d0] = nat ((3661000 div 1000) mod 60)"
    by (rule format_time_mm_ss [THEN conjunct1])
qed

section \<open>What \<open>play_song_at_index\<close> changes\<close>

lemma engine_play_frame:
  "current_playlist_files (engine_play ev p t s) = current_playlist_files s"
  "current_index (engine_play ev p t s) = current_index s"
  "config (engine_play ev p t s) = config s"
  "config_file (engine_play ev p t s) = config_file s"
  "playlists (engine_play ev p t s) = playlists s"
  "playlist_names (engine_play ev p t s) = playlist_names s"
  "current_playlist_name (engine_play ev p t s) = current_playlist_name s"
  "has_player (engine_play ev p t s) = has_player s"
  by (simp_all add: engine_play_def show_playing_def split: engine_reply.splits option.splits)

lemma save_config_frame:
  "current_playlist_files (save_config ev s) = current_playlist_files s"
  "current_index (save_config ev s) = current_index s"
  "config (save_config ev s) = config s"
  "playlists (save_config ev s) = playlists s"
  "playlist_names (save_config ev s) = playlist_names s"
  "current_playlist_name (save_config ev s) = current_playlist_name s"
  "has_player (save_config ev s) = has_player s"
  "song_label (save_config ev s) = song_label s"
  "play_btn (save_config ev s) = play_btn s"
  "engine_log (save_config ev s) = engine_log s"
  by (simp_all add: save_config_def split: option.splits)

lemma play_files [simp]:
  "current_playlist_files (play_song_at_index ev idx s) = current_playlist_files s"
  by (simp add: play_song_at_index_def Let_def engine_play_frame save_config_frame show_playing_def)

lemma play_has_player [simp]:
  "has_player (play_song_at_index ev idx s) = has_player s"
  by (simp add: play_song_at_index_def Let_def engine_play_frame save_config_frame show_playing_def)

lemma play_catalog [simp]:
  "playlists (play_song_at_index ev idx s) = playlists s"
  "playlist_names (play_song_at_index ev idx s) = playlist_names s"
  "current_playlist_name (play_song_at_index ev idx s) = current_playlist_name s"
  by (simp_all add: play_song_at_index_def Let_def engine_play_frame save_config_frame
      show_playing_def)

lemma play_index_in_range:
  "0 \<le> idx \<Longrightarrow> idx < int (length (current_playlist_files s)) \<Longrightarrow>
     current_index (play_song_at_index ev idx s) = idx"
  by (auto simp: play_song_at_index_def Let_def engine_play_frame save_config_frame
      show_playing_def)

lemma play_config_in_range:
  "0 \<le> idx \<Longrightarrow> idx < int (length (current_playlist_files s)) \<Longrightarrow>
     config (play_song_at_index ev idx s) = (config s)(''song_index'' \<mapsto> JInt idx)"
  by (auto simp: play_song_at_index_def Let_def engine_play_frame save_config_frame
      show_playing_def)

lemma play_config_other:
  "k \<noteq> ''song_index'' \<Longrightarrow> config (play_song_at_index ev idx s) k = config s k"
  by (auto simp: play_song_at_index_def Let_def engine_play_frame save_config_frame
      show_playing_def)

lemma play_out_of_range:
  "idx < 0 \<or> int (length (current_playlist_files s)) \<le> idx \<Longrightarrow>
     play_song_at_index ev idx s = s"
  by (auto simp: play_song_at_index_def)

lemma play_index_valid:
  "index_valid s \<Longrightarrow> index_valid (play_song_at_index ev idx s)"
  by (cases "0 \<le> idx \<and> idx < int (length (current_playlist_files s))")
    (auto simp: index_valid_def play_index_in_range play_out_of_range)

text \<open>
  Claim C8. For every index outside \<open>[0, L)\<close>, \<open>L\<close> the length of the current playlist,
  \<open>play_song_at_index\<close> returns the state it was given: the current index, the
  configuration in memory and on disk, the labels and the log of engine commands
  are all as before, so no engine command is issued.
\<close>

theorem play_at_out_of_range_noop:
  "idx < 0 \<or> int (length (current_playlist_files s)) \<le> idx \<Longrightarrow>
     play_song_at_index ev idx s = s \<and>
     current_index (play_song_at_index ev idx s) = current_index s \<and>
     config (play_song_at_index ev idx s) = config s \<and>
     config_file (play_song_at_index ev idx s) = config_file s \<and>
     engine_log (play_song_at_index ev idx s) = engine_log s"
  by (auto simp: play_song_at_index_def)

theorem play_at_out_of_range_noop_witness:
  "((3::int) < 0 \<or> int (length (current_playlist_files demo_player)) \<le> 3) \<and>
     play_song_at_index working_env 3 demo_player = demo_player \<and>
     play_song_at_index working_env (- 1) demo_player = demo_player"
  using play_at_out_of_range_noop [of 3 demo_player working_env]
    play_at_out_of_range_noop [of "- 1" demo_player working_env]
  by (simp add: demo_player_def demo_files_def)

text \<open>
  Claim C10. Whenever the key is present, the shuffle handler leaves
  \<open>config["shuffle"]\<close> as it was and the pin handler leaves \<open>config["pinned"]\<close> as it
  was; the whole dictionary is unchanged, and it is written to disk again.
\<close>

theorem toggle_handlers_identity:
  "(config s ''shuffle'' \<noteq> None \<longrightarrow>
      config (on_shuffle_toggle ev s) ''shuffle'' = config s ''shuffle'' \<and>
      config (on_shuffle_toggle ev s) = config s \<and>
      (write_error ev = None \<longrightarrow> config_file (on_shuffle_toggle ev s) = Some (config s))) \<and>
   (config s ''pinned'' \<noteq> None \<longrightarrow>
      config (toggle_pin ev s) ''pinned'' = config s ''pinned'' \<and>
      config (toggle_pin ev s) = config s \<and>
      (write_error ev = None \<longrightarrow> config_file (toggle_pin ev s) = Some (config s)))"
  by (auto simp: on_shuffle_toggle_def toggle_pin_def save_config_def dict_get_def fun_upd_idem
      split: option.splits)

theorem toggle_handlers_identity_witness:
  "config demo_player ''shuffle'' \<noteq> None \<and> config demo_player ''pinned'' \<noteq> None \<and>
   write_error working_env = None \<and>
   config (on_shuffle_toggle working_env demo_player) ''shuffle'' = Some (JBool False) \<and>
   config (toggle_pin working_env demo_player) ''pinned'' = Some (JBool True) \<and>
   config_file (on_shuffle_toggle working_env demo_player) = Some (config demo_player) \<and>
   config_file (toggle_pin working_env demo_player) = Some (config demo_player)"
  using toggle_handlers_identity [of demo_player working_env]
  by (simp add: demo_player_def demo_config_def working_env_def)

text \<open>
  Claim C7. With shuffle off and a playlist of \<open>L > 0\<close> tracks, \<open>next_song\<close> sets the
  index to \<open>(current + 1) mod L\<close> and \<open>prev_song\<close> sets it to \<open>(current - 1) mod L\<close>,
  whatever the engine and the disk answer; so from every index in \<open>[0, L)\<close>,
  \<open>next_song\<close> followed by \<open>prev_song\<close> comes back to it.
\<close>

theorem next_prev_wraparound:
  assumes shuffle_off: "config s ''shuffle'' = Some sh" "\<not> truthy sh"
    and nonempty: "current_playlist_files s \<noteq> []"
  shows "(\<exists>s1. next_song ev s = Inr s1 \<and>
            current_index s1 = (current_index s + 1) mod int (length (current_playlist_files s))) \<and>
         (\<exists>s1. prev_song ev s = Inr s1 \<and>
            current_index s1 = (current_index s - 1) mod int (length (current_playlist_files s))) \<and>
         (0 \<le> current_index s \<and> current_index s < int (length (current_playlist_files s)) \<longrightarrow>
            (\<exists>s1 s2. next_song ev s = Inr s1 \<and> prev_song ev' s1 = Inr s2 \<and>
               current_index s2 = current_index s))"
proof -
  define L where "L = int (length (current_playlist_files s))"
  from nonempty have Lpos: "0 < L"
    by (simp add: L_def)
  define s1 where "s1 = play_song_at_index ev ((current_index s + 1) mod L)
                          (s\<lparr>current_index := (current_index s + 1) mod L\<rparr>)"
  have next_eq: "next_song ev s = Inr s1"
    using shuffle_off nonempty by (simp add: next_song_def s1_def L_def)
  have idx1: "current_index s1 = (current_index s + 1) mod L"
    unfolding s1_def using Lpos by (intro play_index_in_range) (simp_all add: L_def)
  have files1: "current_playlist_files s1 = current_playlist_files s"
    by (simp add: s1_def)
  have shuffle1: "config s1 ''shuffle'' = Some sh"
    using shuffle_off(1) by (simp add: s1_def play_config_other)
  define p where "p = play_song_at_index ev ((current_index s - 1) mod L)
                          (s\<lparr>current_index := (current_index s - 1) mod L\<rparr>)"
  have prev_eq: "prev_song ev s = Inr p"
    using shuffle_off nonempty by (simp add: prev_song_def p_def L_def)
  have idxp: "current_index p = (current_index s - 1) mod L"
    unfolding p_def using Lpos by (intro play_index_in_range) (simp_all add: L_def)
  define s2 where "s2 = play_song_at_index ev' ((current_index s1 - 1) mod L)
                          (s1\<lparr>current_index := (current_index s1 - 1) mod L\<rparr>)"
  have prev1_eq: "prev_song ev' s1 = Inr s2"
    using shuffle1 shuffle_off(2) nonempty files1 by (simp add: prev_song_def s2_def L_def)
  have idx2: "current_index s2 = (current_index s1 - 1) mod L"
    unfolding s2_def using Lpos files1 by (intro play_index_in_range) (simp_all add: L_def)
  have round_trip: "current_index s2 = current_index s"
    if "0 \<le> current_index s" "current_index s < L"
  proof -
    have "((current_index s + 1) mod L - 1) mod L = (current_index s + 1 - 1) mod L"
      by (simp add: mod_diff_left_eq)
    with that show ?thesis
      by (simp add: idx2 idx1)
  qed
  from next_eq idx1 prev_eq idxp prev1_eq round_trip show ?thesis
    unfolding L_def by blast
qed

theorem next_prev_wraparound_witness:
  "config (demo_player\<lparr>current_index := 2\<rparr>) ''shuffle'' = Some (JBool False) \<and>
   \<not> truthy (JBool False) \<and>
   current_playlist_files (demo_player\<lparr>current_index := 2\<rparr>) \<noteq> [] \<and>
   (\<exists>s1. next_song working_env (demo_player\<lparr>current_index := 2\<rparr>) = Inr s1 \<and>
      current_index s1 = 0) \<and>
   (\<exists>s1 s2. next_song working_env (demo_player\<lparr>current_index := 2\<rparr>) = Inr s1 \<and>
      prev_song failing_env s1 = Inr s2 \<and> current_index s2 = 2)"
proof -
  have a: "config (demo_player\<lparr>current_index := 2\<rparr>) ''shuffle'' = Some (JBool False)"
    by (simp add: demo_player_def demo_config_def)
  have b: "\<not> truthy (JBool False)"
    by simp
  have c: "current_playlist_files (demo_player\<lparr>current_index := 2\<rparr>) \<noteq> []"
    by (simp add: demo_player_def demo_files_def)
  have d: "length (current_playlist_files demo_player) = 3"
    by (simp add: demo_player_def demo_files_def)
  from next_prev_wraparound [OF a b c, of working_env failing_env] a b c show ?thesis
    by (simp add: d)
qed

text \<open>
  Claim C3. On an iteration of the end-of-track watcher with a player and a non-empty
  playlist, a \<open>next_song\<close> thread is started exactly when the engine answered "not
  playing" to both polls of the iteration and its state is \<open>Ended\<close> or
  \<open>NothingSpecial\<close>; in state \<open>Paused\<close> none is started.
\<close>

theorem watcher_advances_iff_ended:
  assumes "has_player s" and "current_playlist_files s \<noteq> []"
  shows "(fst (monitor_tick s obs) \<longleftrightarrow>
            is_playing_before obs = Returns False \<and> is_playing_after obs = Returns False \<and>
            (get_state obs = Returns Ended \<or> get_state obs = Returns NothingSpecial)) \<and>
         (get_state obs = Returns Paused \<longrightarrow> \<not> fst (monitor_tick s obs))"
  using assms
  by (auto simp: monitor_tick_def check_song_ended_def split: outcome.splits bool.splits)

theorem watcher_advances_iff_ended_witness:
  "has_player demo_player \<and> current_playlist_files demo_player \<noteq> [] \<and>
   fst (monitor_tick demo_player
     \<lparr>is_playing_before = Returns False, is_playing_after = Returns False,
      get_state = Returns Ended\<rparr>) \<and>
   \<not> fst (monitor_tick demo_player
     \<lparr>is_playing_before = Returns False, is_playing_after = Returns False,
      get_state = Returns Paused\<rparr>)"
proof -
  have a: "has_player demo_player"
    by (simp add: demo_player_def)
  have b: "current_playlist_files demo_player \<noteq> []"
    by (simp add: demo_player_def demo_files_def)
  from watcher_advances_iff_ended [OF a b,
      of "\<lparr>is_playing_before = Returns False, is_playing_after = Returns False,
           get_state = Returns Ended\<rparr>"]
    watcher_advances_iff_ended [OF a b,
      of "\<lparr>is_playing_before = Returns False, is_playing_after = Returns False,
           get_state = Returns Paused\<rparr>"]
    a b show ?thesis
    by simp
qed

section \<open>Engine failures\<close>

lemma engine_play_failure:
  assumes "engine ev p = Fails_load e \<or> engine ev p = Fails_play t e"
  shows "song_label (engine_play ev p title s) = song_label s"
    and "play_btn (engine_play ev p title s) = play_btn s"
    and "console (engine_play ev p title s) = console s @ [error_playing p e]"
    and "engine_log (engine_play ev p title s) = engine_log s @ [MediaNew p] \<or>
         engine_log (engine_play ev p title s) = engine_log s @ [MediaNew p, SetMedia p, Play]"
  using assms by (auto simp: engine_play_def)

text \<open>
  Claim C1, as the code has it. When the engine fails on the track at a valid index, the
  exception is caught and its message printed, the engine is asked to load the track
  once and never again, and the title and the play button stay as they were; the
  current index and \<open>config["song_index"]\<close> are already set to the requested index,
  because the index is stored and saved before the engine is called.
\<close>

theorem play_at_engine_failure:
  assumes in_range: "0 \<le> idx" "idx < int (length (current_playlist_files s))"
    and player: "has_player s"
    and fails: "engine ev (current_playlist_files s ! nat idx) = Fails_load e \<or>
                engine ev (current_playlist_files s ! nat idx) = Fails_play t e"
  shows "current_index (play_song_at_index ev idx s) = idx \<and>
         config (play_song_at_index ev idx s) = (config s)(''song_index'' \<mapsto> JInt idx) \<and>
         (write_error ev = None \<longrightarrow>
            config_file (play_song_at_index ev idx s) = Some ((config s)(''song_index'' \<mapsto> JInt idx))) \<and>
         song_label (play_song_at_index ev idx s) = song_label s \<and>
         play_btn (play_song_at_index ev idx s) = play_btn s \<and>
         current_playlist_files (play_song_at_index ev idx s) = current_playlist_files s \<and>
         last (console (play_song_at_index ev idx s)) =
           error_playing (current_playlist_files s ! nat idx) e \<and>
         (engine_log (play_song_at_index ev idx s) =
            engine_log s @ [MediaNew (current_playlist_files s ! nat idx)] \<or>
          engine_log (play_song_at_index ev idx s) =
            engine_log s @ [MediaNew (current_playlist_files s ! nat idx),
                            SetMedia (current_playlist_files s ! nat idx), Play])"
proof -
  define p where "p = current_playlist_files s ! nat idx"
  define s2 where "s2 = save_config ev (s\<lparr>current_index := idx,
                          config := (config s)(''song_index'' \<mapsto> JInt idx)\<rparr>)"
  from in_range have nonempty: "current_playlist_files s \<noteq> []"
    by auto
  have unfold: "play_song_at_index ev idx s = engine_play ev p (basename p) s2"
    using in_range nonempty player
    by (simp add: play_song_at_index_def Let_def p_def s2_def save_config_frame)
  from fails have fails': "engine ev p = Fails_load e \<or> engine ev p = Fails_play t e"
    by (simp add: p_def)
  have s2_facts: "current_index s2 = idx" "config s2 = (config s)(''song_index'' \<mapsto> JInt idx)"
    "song_label s2 = song_label s" "play_btn s2 = play_btn s" "engine_log s2 = engine_log s"
    "current_playlist_files s2 = current_playlist_files s"
    by (simp_all add: s2_def save_config_frame)
  have on_disk: "write_error ev = None \<longrightarrow>
      config_file s2 = Some ((config s)(''song_index'' \<mapsto> JInt idx))"
    by (simp add: s2_def save_config_def)
  show ?thesis
    unfolding unfold p_def [symmetric]
    using engine_play_failure [OF fails', of "basename p" s2] s2_facts on_disk
    by (simp add: engine_play_frame)
qed

theorem play_at_engine_failure_witness:
  "(0::int) \<le> 1 \<and> 1 < int (length (current_playlist_files demo_player)) \<and>
   has_player demo_player \<and>
   engine failing_env (current_playlist_files demo_player ! nat 1) = Fails_load ''cannot open'' \<and>
   current_index (play_song_at_index failing_env 1 demo_player) = 1 \<and>
   song_label (play_song_at_index failing_env 1 demo_player) = ''a.mp3'' \<and>
   play_btn (play_song_at_index failing_env 1 demo_player) = Pause_glyph"
proof -
  have a: "(0::int) \<le> 1"
    by simp
  have b: "1 < int (length (current_playlist_files demo_player))"
    by (simp add: demo_player_def demo_files_def)
  have c: "has_player demo_player"
    by (simp add: demo_player_def)
  have d: "engine failing_env (current_playlist_files demo_player ! nat 1) = Fails_load ''cannot open''"
    by (simp add: failing_env_def)
  have e: "song_label demo_player = ''a.mp3''" "play_btn demo_player = Pause_glyph"
    by (simp_all add: demo_player_def)
  from play_at_engine_failure [OF a b c disjI1, OF d] a b c d e show ?thesis
    by simp
qed

text \<open>
  Claim C1 as the specification words it fails: playing track 1 from track 0 with an
  engine that cannot load the file leaves the current index and the persisted
  \<open>song_index\<close> at 1, not at 0.
\<close>

theorem engine_failure_changes_index:
  "engine failing_env (current_playlist_files demo_player ! 1) = Fails_load ''cannot open'' \<and>
   current_index demo_player = 0 \<and>
   config demo_player ''song_index'' = Some (JInt 0) \<and>
   config_file demo_player = Some (config demo_player) \<and>
   current_index (play_song_at_index failing_env 1 demo_player) = 1 \<and>
   config (play_song_at_index failing_env 1 demo_player) ''song_index'' = Some (JInt 1) \<and>
   config_file (play_song_at_index failing_env 1 demo_player) =
     Some ((config demo_player)(''song_index'' \<mapsto> JInt 1)) \<and>
   current_index (play_song_at_index failing_env 1 demo_player) \<noteq> current_index demo_player"
  by (simp add: play_song_at_index_def engine_play_def save_config_def failing_env_def
      demo_player_def demo_files_def demo_config_def Let_def)

section \<open>Choosing a playlist\<close>

text \<open>
  Claim C4, as the code has it. \<open>on_playlist_change\<close> has no test for an unknown name:
  it always makes the name the active one, stores it under \<open>config["playlist"]\<close>,
  saves, and resets the index to 0. If the catalog has tracks under the name, they
  become the current files and track 0 is loaded and played: \<open>song_index\<close> 0 is saved
  and, with an engine that accepts the file, the engine receives the load of track 0,
  \<open>set_media\<close>, \<open>play\<close> and the volume of the session, the label shows the title and
  the button the pause sign; if the engine raises, the load was attempted once, the
  error is printed and label and button stay. Otherwise the current files become
  empty, the label reads \<open>No files in playlist\<close> and no engine command is sent.
\<close>

theorem select_playlist_effect:
  "\<exists>s'. on_playlist_change ev name s = Inr s' \<and>
     current_playlist_name s' = Name name \<and>
     config s' ''playlist'' = Some (JStr name) \<and>
     current_index s' = 0 \<and>
     (write_error ev = None \<longrightarrow> config_file s' = Some (config s')) \<and>
     (\<forall>files. map_of (playlists s) name = Some files \<and> files \<noteq> [] \<longrightarrow>
        current_playlist_files s' = files \<and>
        config s' = (config s)(''playlist'' \<mapsto> JStr name, ''song_index'' \<mapsto> JInt 0) \<and>
        (if has_player s
         then \<exists>rest. engine_log s' = engine_log s @ MediaNew (files ! 0) # rest
         else engine_log s' = engine_log s \<and> song_label s' = basename (files ! 0) \<and>
              play_btn s' = Pause_glyph) \<and>
        (\<forall>t v. has_player s \<and> engine ev (files ! 0) = Plays t \<and>
               config s ''volume'' = Some v \<longrightarrow>
           engine_log s' = engine_log s @
             [MediaNew (files ! 0), SetMedia (files ! 0), Play, SetVolume v] \<and>
           song_label s' = pick_title (basename (files ! 0)) t \<and>
           play_btn s' = Pause_glyph) \<and>
        (\<forall>t e. has_player s \<and>
               (engine ev (files ! 0) = Fails_load e \<or> engine ev (files ! 0) = Fails_play t e) \<longrightarrow>
           (engine_log s' = engine_log s @ [MediaNew (files ! 0)] \<or>
            engine_log s' = engine_log s @ [MediaNew (files ! 0), SetMedia (files ! 0), Play]) \<and>
           last (console s') = error_playing (files ! 0) e \<and>
           song_label s' = song_label s \<and> play_btn s' = play_btn s)) \<and>
     (map_of (playlists s) name = None \<longrightarrow>
        current_playlist_files s' = [] \<and>
        config s' = (config s)(''playlist'' \<mapsto> JStr name) \<and>
        song_label s' = ''No files in playlist'' \<and>
        engine_log s' = engine_log s)"
proof -
  define s3 where "s3 = (save_config ev (s\<lparr>current_playlist_name := Name name,
      config := (config s)(''playlist'' \<mapsto> JStr name)\<rparr>))\<lparr>current_index := 0\<rparr>"
  have s3_facts: "current_playlist_name s3 = Name name" "playlists s3 = playlists s"
    "config s3 = (config s)(''playlist'' \<mapsto> JStr name)" "current_index s3 = 0"
    "engine_log s3 = engine_log s" "has_player s3 = has_player s"
    "song_label s3 = song_label s" "play_btn s3 = play_btn s"
    by (simp_all add: s3_def save_config_frame)
  have s3_file: "write_error ev = None \<longrightarrow> config_file s3 = Some (config s3)"
    by (simp add: s3_def save_config_def)
  have step: "on_playlist_change ev name s = load_current_playlist ev s3"
    by (simp add: on_playlist_change_def Let_def s3_def)
  show ?thesis
  proof (cases "map_of (playlists s) name")
    case None
    then have "load_current_playlist ev s3 = Inr (s3\<lparr>current_playlist_files := [],
        song_label := ''No files in playlist''\<rparr>)"
      by (simp add: load_current_playlist_def s3_facts)
    with None s3_facts s3_file step show ?thesis
      by simp
  next
    case (Some files)
    show ?thesis
    proof (cases "files = []")
      case True
      with Some have "load_current_playlist ev s3 = Inr (s3\<lparr>current_playlist_files := [],
          song_label := ''No files in playlist''\<rparr>)"
        by (simp add: load_current_playlist_def s3_facts)
      with Some True s3_facts s3_file step show ?thesis
        by simp
    next
      case False
      define f where "f = files ! 0"
      define s4 where "s4 = s3\<lparr>current_playlist_files := files\<rparr>"
      define s5 where "s5 = save_config ev (s4\<lparr>current_index := 0,
          config := (config s4)(''song_index'' \<mapsto> JInt 0)\<rparr>)"
      define s' where "s' = play_song_at_index ev 0 s4"
      from Some False have load: "load_current_playlist ev s3 = Inr s'"
        by (simp add: load_current_playlist_def s3_facts s4_def s'_def)
      have range: "(0::int) \<le> 0" "0 < int (length (current_playlist_files s4))"
        using False by (simp_all add: s4_def)
      have s4_facts: "config s4 = (config s)(''playlist'' \<mapsto> JStr name)"
        "current_playlist_name s4 = Name name" "engine_log s4 = engine_log s"
        "has_player s4 = has_player s" "current_playlist_files s4 = files"
        "song_label s4 = song_label s" "play_btn s4 = play_btn s"
        by (simp_all add: s4_def s3_facts)
      have cfg: "config s' = (config s)(''playlist'' \<mapsto> JStr name, ''song_index'' \<mapsto> JInt 0)"
        unfolding s'_def by (simp add: play_config_in_range [OF range] s4_facts)
      have idx: "current_index s' = 0"
        unfolding s'_def by (rule play_index_in_range [OF range])
      have nm: "current_playlist_name s' = Name name" "current_playlist_files s' = files"
        by (simp_all add: s'_def s4_facts)
      have unfold: "s' = (if has_player s then engine_play ev f (basename f) s5
                          else show_playing (basename f) s5)"
        using False
        by (simp add: s'_def play_song_at_index_def Let_def s5_def s4_facts save_config_frame f_def)
      have s5_log: "engine_log s5 = engine_log s" "song_label s5 = song_label s"
        "play_btn s5 = play_btn s"
        by (simp_all add: s5_def save_config_frame s4_facts)
      have s5_volume: "config s5 ''volume'' = config s ''volume''"
        by (simp add: s5_def save_config_frame s4_facts)
      have s5_file: "write_error ev = None \<longrightarrow> config_file s5 =
          Some ((config s)(''playlist'' \<mapsto> JStr name, ''song_index'' \<mapsto> JInt 0))"
        by (simp add: s5_def save_config_def s4_facts)
      have "write_error ev = None \<longrightarrow> config_file s' =
          Some ((config s)(''playlist'' \<mapsto> JStr name, ''song_index'' \<mapsto> JInt 0))"
        using s5_file by (simp add: unfold engine_play_frame show_playing_def)
      then have on_disk: "write_error ev = None \<longrightarrow> config_file s' = Some (config s')"
        by (simp only: cfg)
      have log: "if has_player s
         then \<exists>rest. engine_log s' = engine_log s @ MediaNew f # rest
         else engine_log s' = engine_log s \<and> song_label s' = basename f \<and>
              play_btn s' = Pause_glyph"
        by (auto simp: unfold engine_play_def show_playing_def s5_log
            split: engine_reply.splits option.splits)
      have played: "engine_log s' = engine_log s @ [MediaNew f, SetMedia f, Play, SetVolume v] \<and>
           song_label s' = pick_title (basename f) t \<and> play_btn s' = Pause_glyph"
        if "has_player s" "engine ev f = Plays t" "config s ''volume'' = Some v" for t v
        using that by (simp add: unfold engine_play_def show_playing_def s5_log s5_volume)
      have failed: "(engine_log s' = engine_log s @ [MediaNew f] \<or>
            engine_log s' = engine_log s @ [MediaNew f, SetMedia f, Play]) \<and>
           last (console s') = error_playing f e \<and>
           song_label s' = song_label s \<and> play_btn s' = play_btn s"
        if "has_player s" "engine ev f = Fails_load e \<or> engine ev f = Fails_play t e" for t e
        using that engine_play_failure [OF that(2), of "basename f" s5]
        by (simp add: unfold s5_log)
      have branch: "current_playlist_files s' = files \<and>
        config s' = (config s)(''playlist'' \<mapsto> JStr name, ''song_index'' \<mapsto> JInt 0) \<and>
        (if has_player s
         then \<exists>rest. engine_log s' = engine_log s @ MediaNew f # rest
         else engine_log s' = engine_log s \<and> song_label s' = basename f \<and>
              play_btn s' = Pause_glyph) \<and>
        (\<forall>t v. has_player s \<and> engine ev f = Plays t \<and> config s ''volume'' = Some v \<longrightarrow>
           engine_log s' = engine_log s @ [MediaNew f, SetMedia f, Play, SetVolume v] \<and>
           song_label s' = pick_title (basename f) t \<and> play_btn s' = Pause_glyph) \<and>
        (\<forall>t e. has_player s \<and> (engine ev f = Fails_load e \<or> engine ev f = Fails_play t e) \<longrightarrow>
           (engine_log s' = engine_log s @ [MediaNew f] \<or>
            engine_log s' = engine_log s @ [MediaNew f, SetMedia f, Play]) \<and>
           last (console s') = error_playing f e \<and>
           song_label s' = song_label s \<and> play_btn s' = play_btn s)"
        using nm(2) cfg log played failed by blast
      have general: "on_playlist_change ev name s = Inr s' \<and>
          current_playlist_name s' = Name name \<and>
          config s' ''playlist'' = Some (JStr name) \<and>
          current_index s' = 0 \<and>
          (write_error ev = None \<longrightarrow> config_file s' = Some (config s'))"
        using load step cfg idx nm on_disk by simp
      from general branch Some show ?thesis
        unfolding f_def by (intro exI [of _ s']) simp
    qed
  qed
qed

theorem select_playlist_effect_witness:
  "map_of (playlists demo_player) ''rock'' = Some demo_files \<and> demo_files \<noteq> [] \<and>
   has_player demo_player \<and> write_error working_env = None \<and>
   engine working_env (demo_files ! 0) = Plays None \<and>
   config demo_player ''volume'' = Some (JInt 80) \<and>
   (\<exists>s'. on_playlist_change working_env ''rock''
            (demo_player\<lparr>current_index := 2, song_label := ''c.mp3'', play_btn := Play_glyph\<rparr>) = Inr s' \<and>
      current_playlist_name s' = Name ''rock'' \<and> current_index s' = 0 \<and>
      current_playlist_files s' = demo_files \<and>
      config_file s' = Some (config s') \<and>
      engine_log s' = [MediaNew ''/m/rock/a.mp3'', SetMedia ''/m/rock/a.mp3'', Play,
                        SetVolume (JInt 80)] \<and>
      song_label s' = ''a.mp3'' \<and> play_btn s' = Pause_glyph)"
proof -
  define s0 where "s0 = demo_player\<lparr>current_index := 2, song_label := ''c.mp3'', play_btn := Play_glyph\<rparr>"
  have a: "map_of (playlists s0) ''rock'' = Some demo_files"
    "demo_files \<noteq> []" "has_player s0"
    "write_error working_env = None" "engine_log s0 = []"
    "demo_files ! 0 = ''/m/rock/a.mp3''"
    "engine working_env ''/m/rock/a.mp3'' = Plays None"
    "config s0 ''volume'' = Some (JInt 80)"
    by (simp_all add: s0_def demo_player_def demo_files_def working_env_def demo_config_def)
  have title: "pick_title (basename ''/m/rock/a.mp3'') None = ''a.mp3''"
    by code_simp
  from select_playlist_effect [of working_env "''rock''" s0]
  obtain s' where "on_playlist_change working_env ''rock'' s0 = Inr s'"
    "current_playlist_name s' = Name ''rock''" "current_index s' = 0"
    "config_file s' = Some (config s')"
    "current_playlist_files s' = demo_files"
    "engine_log s' = [MediaNew ''/m/rock/a.mp3'', SetMedia ''/m/rock/a.mp3'', Play,
                        SetVolume (JInt 80)]"
    "song_label s' = ''a.mp3''" "play_btn s' = Pause_glyph"
    using a title by auto
  with a show ?thesis
    unfolding s0_def by (auto simp: demo_player_def demo_config_def)
qed

text \<open>
  Claim C4 as the specification words it fails: selecting a name that is not in the
  catalog is not a no-op. From track 2 of \<open>rock\<close>, selecting \<open>jazz\<close> makes \<open>jazz\<close> the
  active name, empties the current files, resets the index and overwrites the
  persisted playlist.
\<close>

theorem select_unknown_playlist_changes_state:
  "map_of (playlists (demo_player\<lparr>current_index := 2\<rparr>)) ''jazz'' = None \<and>
   current_playlist_name (demo_player\<lparr>current_index := 2\<rparr>) = Name ''rock'' \<and>
   config_file (demo_player\<lparr>current_index := 2\<rparr>) = Some demo_config \<and>
   demo_config ''playlist'' = Some (JStr ''rock'') \<and>
   on_playlist_change working_env ''jazz'' (demo_player\<lparr>current_index := 2\<rparr>) =
     Inr (demo_player\<lparr>config := demo_config(''playlist'' \<mapsto> JStr ''jazz''),
            config_file := Some (demo_config(''playlist'' \<mapsto> JStr ''jazz'')),
            current_playlist_name := Name ''jazz'', current_playlist_files := [],
            current_index := 0, song_label := ''No files in playlist''\<rparr>)"
  by (simp add: on_playlist_change_def load_current_playlist_def save_config_def Let_def
      demo_player_def demo_config_def working_env_def)

section \<open>The index at start-up\<close>

lemma scan_demo_root: "scan_playlists ''/m'' demo_root = Inr [(''rock'', demo_files)]"
  by code_simp

text \<open>
  Claim C2 at a configuration file whose \<open>song_index\<close> is \<open>-1\<close>: \<open>__init__\<close> tests the
  saved index against the length of the playlist only, \<open>play_song_at_index\<close> then
  refuses the negative index and returns, and the player starts with three tracks and
  the current index \<open>-1\<close>.
\<close>

theorem startup_keeps_negative_index:
  "(case init working_env (Some [''song_index'' \<mapsto> JInt (- 1)]) ''/m'' demo_root True of
      Inl e \<Rightarrow> False
    | Inr s \<Rightarrow> reachable s \<and> current_playlist_files s = demo_files \<and>
        length demo_files = 3 \<and> current_index s = - 1 \<and> \<not> index_valid s)"
proof -
  obtain s where s: "init working_env (Some [''song_index'' \<mapsto> JInt (- 1)]) ''/m'' demo_root True = Inr s"
    and facts: "current_playlist_files s = demo_files" "current_index s = - 1"
    by (simp add: init_def scan_demo_root load_config_def first_playlist_def dict_get_def
        default_config_def load_current_playlist_def play_song_at_index_def demo_files_def)
  from s have "reachable s"
    by (rule reachable.start)
  moreover have "length demo_files = 3"
    by (simp add: demo_files_def)
  moreover have "demo_files \<noteq> []"
    by (simp add: demo_files_def)
  ultimately show ?thesis
    using s facts by (simp add: index_valid_def)
qed

section \<open>The order of the catalog\<close>

lemma register_keys:
  "map fst (register k files pls) = map fst pls \<or> map fst (register k files pls) = map fst pls @ [k]"
  by (simp add: register_def update_keys)

lemma register_values:
  "list_all (\<lambda>fs. sorted (map lower fs)) (map snd pls) \<Longrightarrow>
     list_all (\<lambda>fs. sorted (map lower fs)) (map snd (register k files pls))"
  by (induction pls) (auto simp: register_def)

lemma register_nested_top_level:
  "top_level_names (register (entry @ CHR ''/'' # sub_entry) files pls) = top_level_names pls"
  using register_keys [of "entry @ CHR ''/'' # sub_entry" files pls]
  by (auto simp: top_level_names_def)

lemma scan_top_keys_sorted:
  "sorted (map fst pls @ entries) \<Longrightarrow> scan_top root_path root entries pls = Inr r \<Longrightarrow>
     sorted (map fst r)"
proof (induction entries arbitrary: pls)
  case Nil
  then show ?case by simp
next
  case (Cons entry rest)
  from Cons.prems(1) have same: "sorted (map fst pls @ rest)"
    by (auto simp: sorted_append)
  show ?case
  proof (cases "isdir (child root entry)")
    case False
    with Cons.prems(2) have "scan_top root_path root rest pls = Inr r"
      by simp
    with same show ?thesis
      by (rule Cons.IH)
  next
    case True
    with Cons.prems(2) obtain names where
      run: "scan_top root_path root rest
              (register entry (audio_files (path_join root_path entry) names) pls) = Inr r"
      by (auto split: sum.splits)
    have "sorted (map fst (register entry (audio_files (path_join root_path entry) names) pls) @ rest)"
      using register_keys [of entry "audio_files (path_join root_path entry) names" pls]
        same Cons.prems(1)
      by auto
    then show ?thesis
      using run by (rule Cons.IH)
  qed
qed

lemma scan_top_values:
  "list_all (\<lambda>fs. sorted (map lower fs)) (map snd pls) \<Longrightarrow>
     scan_top root_path root entries pls = Inr r \<Longrightarrow>
     list_all (\<lambda>fs. sorted (map lower fs)) (map snd r)"
proof (induction entries arbitrary: pls)
  case Nil
  then show ?case by simp
next
  case (Cons entry rest)
  then show ?case
    by (auto split: if_splits sum.splits dest: register_values)
qed

lemma scan_sub_values:
  "list_all (\<lambda>fs. sorted (map lower fs)) (map snd pls) \<Longrightarrow>
     scan_sub entry entry_path node subs pls = Inr r \<Longrightarrow>
     list_all (\<lambda>fs. sorted (map lower fs)) (map snd r)"
proof (induction subs arbitrary: pls)
  case Nil
  then show ?case by simp
next
  case (Cons sub_entry rest)
  then show ?case
    by (auto split: if_splits sum.splits dest: register_values)
qed

lemma scan_sub_top_level:
  "scan_sub entry entry_path node subs pls = Inr r \<Longrightarrow> top_level_names r = top_level_names pls"
proof (induction subs arbitrary: pls)
  case Nil
  then show ?case by simp
next
  case (Cons sub_entry rest)
  then show ?case
    by (auto split: if_splits sum.splits simp: register_nested_top_level)
qed

lemma scan_nested_values:
  "list_all (\<lambda>fs. sorted (map lower fs)) (map snd pls) \<Longrightarrow>
     scan_nested root_path root entries pls = Inr r \<Longrightarrow>
     list_all (\<lambda>fs. sorted (map lower fs)) (map snd r)"
proof (induction entries arbitrary: pls)
  case Nil
  then show ?case by simp
next
  case (Cons entry rest)
  then show ?case
    by (auto split: if_splits sum.splits dest: scan_sub_values)
qed

lemma scan_nested_top_level:
  "scan_nested root_path root entries pls = Inr r \<Longrightarrow> top_level_names r = top_level_names pls"
proof (induction entries arbitrary: pls)
  case Nil
  then show ?case by simp
next
  case (Cons entry rest)
  then show ?case
    by (auto split: if_splits sum.splits dest: scan_sub_top_level)
qed

text \<open>
  Claim C6, as the code has it. The folder names are sorted by \<^verbatim>\<open>sorted(os.listdir(root))\<close>,
  with no key: the top-level playlist names come in the order of their characters' codes,
  capitals before small letters. Each playlist's files are sorted with the key
  \<^verbatim>\<open>x.lower()\<close>: case-insensitively by path.
\<close>

theorem scan_order:
  "scan_playlists root_path root = Inr pls \<Longrightarrow>
     sorted (top_level_names pls) \<and>
     list_all (\<lambda>files. sorted (map lower files)) (map snd pls)"
proof -
  assume scan: "scan_playlists root_path root = Inr pls"
  show ?thesis
  proof (cases "isdir root")
    case False
    with scan have "pls = []"
      by (simp add: scan_playlists_def)
    then show ?thesis
      by (simp add: top_level_names_def)
  next
    case True
    with scan obtain names top where
      top: "scan_top root_path root (sort names) [] = Inr top" and
      nested: "scan_nested root_path root (sort names) top = Inr pls"
      by (auto simp: scan_playlists_def split: sum.splits)
    have "sorted (map fst ([] :: catalog) @ sort names)"
      by simp
    from scan_top_keys_sorted [OF this top] have "sorted (map fst top)" .
    then have "sorted (top_level_names top)"
      unfolding top_level_names_def by (rule sorted_filter [where f = "\<lambda>x. x", simplified])
    with scan_nested_top_level [OF nested] have keys: "sorted (top_level_names pls)"
      by simp
    have "list_all (\<lambda>fs. sorted (map lower fs)) (map snd top)"
      using scan_top_values [OF _ top] by simp
    with nested have "list_all (\<lambda>fs. sorted (map lower fs)) (map snd pls)"
      by (rule scan_nested_values [rotated])
    with keys show ?thesis
      by simp
  qed
qed

lemma scan_nested_root:
  "scan_playlists ''/m'' nested_root =
     Inr [(''pop'', [''/m/pop/A.ogg'', ''/m/pop/b.MP3'']), (''pop/live'', [''/m/pop/live/z.flac''])]"
  by code_simp

theorem scan_order_witness:
  "scan_playlists ''/m'' nested_root =
     Inr [(''pop'', [''/m/pop/A.ogg'', ''/m/pop/b.MP3'']), (''pop/live'', [''/m/pop/live/z.flac''])] \<and>
   sorted (top_level_names
     [(''pop'', [''/m/pop/A.ogg'', ''/m/pop/b.MP3'']), (''pop/live'', [''/m/pop/live/z.flac''])]) \<and>
   sorted (map lower [''/m/pop/A.ogg'', ''/m/pop/b.MP3''])"
  using scan_order [OF scan_nested_root] scan_nested_root by simp

text \<open>
  Claim C6 as the specification words it fails for the names: with the folders \<open>a\<close> and
  \<open>B\<close> the catalog lists \<open>B\<close> before \<open>a\<close>, which is not case-insensitive order.
\<close>

theorem scan_names_case_sensitive:
  "scan_playlists ''/m'' mixed_case_root = Inr [(''B'', [''/m/B/x.mp3'']), (''a'', [''/m/a/y.mp3''])] \<and>
   top_level_names [(''B'', [''/m/B/x.mp3'']), (''a'', [''/m/a/y.mp3''])] = [''B'', ''a''] \<and>
   \<not> sorted (map lower [''B'', ''a''])"
  by code_simp

section \<open>Roots that cannot be scanned\<close>

text \<open>
  Claim C5, as the code has it. A root that does not exist, or is not a directory, gives
  the empty catalog and no error. A root that is a directory but may not be listed is
  not caught: \<^verbatim>\<open>os.path.isdir\<close> accepts it and \<^verbatim>\<open>os.listdir\<close> raises
  \<^verbatim>\<open>PermissionError\<close> out of \<open>scan_playlists\<close>.
\<close>

theorem scan_missing_root_empty:
  "(\<not> isdir root \<longrightarrow> scan_playlists root_path root = Inr []) \<and>
   (root = None \<or> root = Some File \<longrightarrow> scan_playlists root_path root = Inr []) \<and>
   (\<forall>entries. root = Some (Dir False entries) \<longrightarrow>
      scan_playlists root_path root = Inl PermissionError)"
  by (auto simp: scan_playlists_def)

theorem scan_missing_root_empty_witness:
  "\<not> isdir None \<and> \<not> isdir (Some File) \<and>
   scan_playlists ''/home/u/Music'' None = Inr [] \<and>
   scan_playlists ''/home/u/Music'' (Some File) = Inr [] \<and>
   scan_playlists ''/home/u/Music'' (Some (Dir False [])) = Inl PermissionError"
  using scan_missing_root_empty [of None "''/home/u/Music''"]
    scan_missing_root_empty [of "Some File" "''/home/u/Music''"]
    scan_missing_root_empty [of "Some (Dir False [])" "''/home/u/Music''"]
  by simp

text \<open>
  Claim C5 as the specification words it fails for a root that exists and is not
  readable: the scan raises.
\<close>

theorem scan_unreadable_root_raises:
  "isdir unreadable_root \<and> listdir unreadable_root = Inl PermissionError \<and>
   scan_playlists ''/m'' unreadable_root = Inl PermissionError \<and>
   scan_playlists ''/m'' unreadable_root \<noteq> Inr []"
  by (simp add: unreadable_root_def scan_playlists_def)

section \<open>Where the index stays valid\<close>

text \<open>
  Every transport operation leaves a valid index behind, and so does start-up when the
  saved index is not negative: the state above is reached through a negative saved index
  only.
\<close>

lemma next_song_index_valid: "next_song ev s = Inr s' \<Longrightarrow> index_valid s'"
proof (cases "current_playlist_files s = []")
  case True
  assume "next_song ev s = Inr s'"
  with True show ?thesis
    by (simp add: next_song_def index_valid_def)
next
  case False
  assume run: "next_song ev s = Inr s'"
  from False have pos: "0 < length (current_playlist_files s)"
    by simp
  then have "0 \<le> randrange ev (length (current_playlist_files s))"
    "randrange ev (length (current_playlist_files s)) < int (length (current_playlist_files s))"
    by (simp_all add: randrange_def)
  moreover have "0 \<le> (current_index s + 1) mod int (length (current_playlist_files s))"
    "(current_index s + 1) mod int (length (current_playlist_files s)) < int (length (current_playlist_files s))"
    using pos by simp_all
  ultimately show ?thesis
    using run False
    by (auto simp: next_song_def index_valid_def Let_def play_index_in_range
        split: option.splits if_splits)
qed

lemma prev_song_index_valid: "prev_song ev s = Inr s' \<Longrightarrow> index_valid s'"
proof (cases "current_playlist_files s = []")
  case True
  assume "prev_song ev s = Inr s'"
  with True show ?thesis
    by (simp add: prev_song_def index_valid_def)
next
  case False
  assume run: "prev_song ev s = Inr s'"
  from False have pos: "0 < length (current_playlist_files s)"
    by simp
  then have "0 \<le> randrange ev (length (current_playlist_files s))"
    "randrange ev (length (current_playlist_files s)) < int (length (current_playlist_files s))"
    by (simp_all add: randrange_def)
  moreover have "0 \<le> (current_index s - 1) mod int (length (current_playlist_files s))"
    "(current_index s - 1) mod int (length (current_playlist_files s)) < int (length (current_playlist_files s))"
    using pos by simp_all
  ultimately show ?thesis
    using run False
    by (auto simp: prev_song_def index_valid_def Let_def play_index_in_range
        split: option.splits if_splits)
qed

lemma load_current_playlist_valid:
  assumes "load_current_playlist ev s = Inr s'" and "0 \<le> current_index s"
    and "\<And>files. playlists_get (playlists s) (current_playlist_name s) = Inr files \<Longrightarrow>
           files \<noteq> [] \<Longrightarrow> current_index s < int (length files)"
  shows "index_valid s'"
proof -
  from assms(1) obtain files where
    files: "playlists_get (playlists s) (current_playlist_name s) = Inr files"
    by (auto simp: load_current_playlist_def split: sum.splits)
  show ?thesis
  proof (cases "files = []")
    case True
    with assms(1) files show ?thesis
      by (auto simp: load_current_playlist_def index_valid_def)
  next
    case False
    with assms(3) [OF files] have "current_index s < int (length files)" .
    with assms(1,2) files False show ?thesis
      by (auto simp: load_current_playlist_def index_valid_def play_index_in_range)
  qed
qed

lemma on_playlist_change_index_valid:
  assumes "on_playlist_change ev name s = Inr s'"
  shows "index_valid s'"
proof -
  define s3 where "s3 = (save_config ev (s\<lparr>current_playlist_name := Name name,
      config := (config s)(''playlist'' \<mapsto> JStr name)\<rparr>))\<lparr>current_index := 0\<rparr>"
  from assms have load: "load_current_playlist ev s3 = Inr s'"
    by (simp add: on_playlist_change_def Let_def s3_def)
  show ?thesis
  proof (rule load_current_playlist_valid [OF load])
    show "0 \<le> current_index s3"
      by (simp add: s3_def)
  next
    fix files :: "string list"
    assume "files \<noteq> []"
    then show "current_index s3 < int (length files)"
      by (simp add: s3_def)
  qed
qed

lemma init_index_valid:
  assumes "init ev file music_root root vlc_present = Inr s"
    and "index_of_jval (dict_get (load_config file) ''song_index'' (JInt 0)) = Inr i"
    and "0 \<le> i"
  shows "index_valid s"
proof -
  from assms(1) obtain pls where scan: "scan_playlists music_root root = Inr pls"
    by (auto simp: init_def Let_def split: sum.splits)
  obtain name files where first: "first_playlist (load_config file) pls (sort (map fst pls)) = (name, files)"
    by (cases "first_playlist (load_config file) pls (sort (map fst pls))") auto
  define s0 where "s0 = \<lparr>config = load_config file, config_file = file, playlists = pls,
      playlist_names = sort (map fst pls), current_playlist_name = name,
      current_playlist_files = files,
      current_index = (if i \<ge> int (length files) then 0 else i),
      has_player = vlc_present, song_label = ''No song playing'',
      play_btn = Play_glyph, engine_log = [], console = []\<rparr>"
  from assms(1,2) scan first have load: "load_current_playlist ev s0 = Inr s"
    by (simp add: init_def Let_def s0_def)
  have same: "playlists_get pls name = Inr fs \<Longrightarrow> fs = files" for fs
    using first by (auto simp: first_playlist_def Let_def split: list.splits)
  show ?thesis
  proof (rule load_current_playlist_valid [OF load])
    show "0 \<le> current_index s0"
      using assms(3) by (simp add: s0_def)
  next
    fix fs
    assume "playlists_get (playlists s0) (current_playlist_name s0) = Inr fs" "fs \<noteq> []"
    with same [of fs] show "current_index s0 < int (length fs)"
      by (auto simp: s0_def)
  qed
qed

section \<open>Runs of the watcher\<close>

text \<open>
  Three iterations on a playing, playing, ended engine start one \<open>next_song\<close>; three
  iterations on a playing, paused, paused engine start none.
\<close>

lemma watcher_runs:
  "advances demo_player
     [\<lparr>is_playing_before = Returns True, is_playing_after = Returns True, get_state = Returns Playing\<rparr>,
      \<lparr>is_playing_before = Returns True, is_playing_after = Returns True, get_state = Returns Playing\<rparr>,
      \<lparr>is_playing_before = Returns False, is_playing_after = Returns False, get_state = Returns Ended\<rparr>]
     = 1 \<and>
   advances demo_player
     [\<lparr>is_playing_before = Returns True, is_playing_after = Returns True, get_state = Returns Playing\<rparr>,
      \<lparr>is_playing_before = Returns False, is_playing_after = Returns False, get_state = Returns Paused\<rparr>,
      \<lparr>is_playing_before = Returns False, is_playing_after = Returns False, get_state = Returns Paused\<rparr>]
     = 0"
  by (simp add: advances_def monitor_tick_def check_song_ended_def demo_player_def demo_files_def)

end
